theory Spec2Isabelle
  imports Main "HOL-Library.Sublist" "HOL-Library.Char_ord" "HOL-Library.List_Lexorder"
begin

section \<open>Python string and path primitives used by the scripts\<close>

text \<open>
  The two scripts \<^verbatim>\<open>scripts/preprocess_augmentations.py\<close> (the plain variant) and
  \<^verbatim>\<open>scripts/preprocess_outlier_augmentations.py\<close> (the outlier variant) are modelled
  below. Python \<^verbatim>\<open>str\<close> is \<^typ>\<open>string\<close>; paths follow \<^verbatim>\<open>posixpath\<close>.
\<close>

text \<open>\<^verbatim>\<open>s.split(c)\<close> for a one-character separator: never empty, \<^verbatim>\<open>"".split(c) == [""]\<close>.\<close>

fun split_on :: "char \<Rightarrow> string \<Rightarrow> string list" where
  "split_on c [] = [[]]"
| "split_on c (x # xs) =
     (if x = c then [] # split_on c xs
      else (x # hd (split_on c xs)) # tl (split_on c xs))"

text \<open>\<^verbatim>\<open>sep.join(parts)\<close>.\<close>

fun join_str :: "string \<Rightarrow> string list \<Rightarrow> string" where
  "join_str sep [] = []"
| "join_str sep [x] = x"
| "join_str sep (x # y # ys) = x @ sep @ join_str sep (y # ys)"

text \<open>
  \<^verbatim>\<open>s.replace(old, new)\<close>: occurrences are found from the left and do not overlap; an
  empty \<^verbatim>\<open>old\<close> matches before every character and at the end.
\<close>

function str_replace_scan :: "string \<Rightarrow> string \<Rightarrow> string \<Rightarrow> string" where
  "str_replace_scan old new s =
     (if s = [] then []
      else if old \<noteq> [] \<and> prefix old s
        then new @ str_replace_scan old new (drop (length old) s)
      else hd s # str_replace_scan old new (tl s))"
  by pat_completeness auto
termination
  by (relation "measure (\<lambda>(old, new, s). length s)") auto

declare str_replace_scan.simps [simp del]

definition str_replace :: "string \<Rightarrow> string \<Rightarrow> string \<Rightarrow> string" where
  "str_replace old new s =
     (if old = [] then new @ concat (map (\<lambda>c. c # new) s)
      else str_replace_scan old new s)"

text \<open>\<^verbatim>\<open>os.path.join(a, b)\<close> with two arguments.\<close>

definition path_join :: "string \<Rightarrow> string \<Rightarrow> string" where
  "path_join a b =
     (if b \<noteq> [] \<and> hd b = CHR ''/'' then b
      else if a = [] then b
      else if last a = CHR ''/'' then a @ b
      else a @ ''/'' @ b)"

text \<open>\<^verbatim>\<open>os.path.basename(p)\<close>: what follows the last slash.\<close>

definition basename :: "string \<Rightarrow> string" where
  "basename p = rev (takeWhile (\<lambda>c. c \<noteq> CHR ''/'') (rev p))"

text \<open>
  \<^verbatim>\<open>os.path.dirname(p)\<close>: everything up to the last slash, with trailing slashes
  removed unless the head consists of slashes only.
\<close>

definition dirname :: "string \<Rightarrow> string" where
  "dirname p =
     (let head = rev (dropWhile (\<lambda>c. c \<noteq> CHR ''/'') (rev p))
      in if head \<noteq> [] \<and> \<not> list_all (\<lambda>c. c = CHR ''/'') head
         then rev (dropWhile (\<lambda>c. c = CHR ''/'') (rev head))
         else head)"

text \<open>Decimal digits of a natural number, as \<^verbatim>\<open>str(n)\<close> gives them.\<close>

definition digit_char :: "nat \<Rightarrow> char" where
  "digit_char d = ''0123456789'' ! d"

fun dec_nat :: "nat \<Rightarrow> string" where
  "dec_nat n = (if n < 10 then [digit_char n] else dec_nat (n div 10) @ [digit_char (n mod 10)])"

declare dec_nat.simps [simp del]

text \<open>
  The format specification \<^verbatim>\<open>{i:03d}\<close>: at least three characters, filled with zeros
  after the sign.
\<close>

definition fmt_03d :: "int \<Rightarrow> string" where
  "fmt_03d i =
     (if i < 0
      then CHR ''-'' # replicate (2 - length (dec_nat (nat (- i)))) CHR ''0'' @ dec_nat (nat (- i))
      else replicate (3 - length (dec_nat (nat i))) CHR ''0'' @ dec_nat (nat i))"

section \<open>The destination directory as the scripts see it\<close>

type_synonym tensor = "int list"

text \<open>
  What \<^verbatim>\<open>np.load\<close> and the two subscripts \<^verbatim>\<open>data["input"]\<close>, \<^verbatim>\<open>data["label"]\<close> can do
  with a path. A path that is absent from \<open>stored\<close> does not exist (\<^verbatim>\<open>np.load\<close> raises
  \<^verbatim>\<open>FileNotFoundError\<close>). \<open>Garbage\<close> exists but \<^verbatim>\<open>np.load\<close> itself raises on it.
  \<open>Archive a b\<close> is opened by \<^verbatim>\<open>np.load\<close>; reading the array \<^verbatim>\<open>input\<close> gives \<open>a\<close> and reading
  \<^verbatim>\<open>label\<close> gives \<open>b\<close>, where \<open>Inl msg\<close> is an exception with message \<open>msg\<close>.
\<close>

datatype disk_file = Garbage | Archive "string + tensor" "string + tensor"

text \<open>
  \<open>listing\<close> gives the result of \<^verbatim>\<open>os.listdir\<close> for each directory that exists. The listing and the
  stored files are independent, as a file may vanish between listing and opening.
\<close>

record filesystem =
  listing :: "(string \<times> string list) list"
  stored :: "(string \<times> disk_file) list"

text \<open>
  The exceptions that can leave the functions below. \<open>LoadError\<close> stands for whatever
  \<^verbatim>\<open>np.load\<close> raises on a file that exists but that it cannot read (a truncated or
  overwritten archive, a directory).
\<close>

datatype error =
    FileNotFoundError string
  | NotADirectoryError string
  | LoadError string
  | AttributeError string
  | IndexError
  | UnboundLocalError
  | OSError string

text \<open>
  \<^verbatim>\<open>os.listdir(p)\<close>: the names in a directory; \<^verbatim>\<open>FileNotFoundError\<close> for a path that does not
  exist, \<^verbatim>\<open>NotADirectoryError\<close> for one that is a stored file.
\<close>

definition os_listdir :: "filesystem \<Rightarrow> string \<Rightarrow> error + string list" where
  "os_listdir w p =
     (case map_of (listing w) p of
        Some names \<Rightarrow> Inr names
      | None \<Rightarrow>
          (case map_of (stored w) p of
             None \<Rightarrow> Inl (FileNotFoundError p)
           | Some f \<Rightarrow> Inl (NotADirectoryError p)))"

section \<open>\<^verbatim>\<open>ResampleDataset.resume_preprocessing\<close>\<close>

text \<open>\<^verbatim>\<open>"_".join(i.split("_")[:-1])\<close>\<close>

definition archive_prefix :: "string \<Rightarrow> string" where
  "archive_prefix i = join_str ''_'' (butlast (split_on CHR ''_'' i))"

text \<open>\<^verbatim>\<open>np.unique(xs, return_counts=True)\<close>: the sorted distinct values with their counts.\<close>

definition np_unique_counts :: "string list \<Rightarrow> (string \<times> nat) list" where
  "np_unique_counts xs = map (\<lambda>u. (u, count_list xs u)) (sort (remdups xs))"

text \<open>\<^verbatim>\<open>list(unique_files[counts == self.samples_per_file])\<close>\<close>

definition count_complete :: "int \<Rightarrow> string list \<Rightarrow> string list" where
  "count_complete spf names =
     map fst (filter (\<lambda>uc. int (snd uc) = spf) (np_unique_counts (map archive_prefix names)))"

definition test_file_of :: "string \<Rightarrow> int \<Rightarrow> string \<Rightarrow> string" where
  "test_file_of dest spf i = path_join dest (i @ ''_'' @ fmt_03d (spf - 1) @ ''.npz'')"

text \<open>
  The loop \<^verbatim>\<open>for j, i in enumerate(valid_files)\<close>. The list iterator reads position \<open>j\<close> of
  the list as it is at that moment and stops once \<open>j\<close> is no longer below its length, so
  the \<^verbatim>\<open>append\<close> and the \<^verbatim>\<open>pop\<close> in the body change what is visited. \<^verbatim>\<open>np.load\<close> stands
  before the \<^verbatim>\<open>try\<close>: its exceptions leave the function. The body of the
  \<^verbatim>\<open>try\<close> raises exactly when one of the two arrays does. The result \<open>None\<close> stands for a
  loop that never ends. The progress bar and the final \<^verbatim>\<open>print\<close> are left out.
\<close>

partial_function (option) validate_loop ::
  "(string \<times> disk_file) list \<Rightarrow> string \<Rightarrow> int \<Rightarrow> nat \<Rightarrow> string list \<Rightarrow> (error + string list) option"
where
  "validate_loop fs dest spf j valid_files =
     (if j < length valid_files then
        (case map_of fs (test_file_of dest spf (valid_files ! j)) of
           None \<Rightarrow> Some (Inl (FileNotFoundError (test_file_of dest spf (valid_files ! j))))
         | Some Garbage \<Rightarrow> Some (Inl (LoadError (test_file_of dest spf (valid_files ! j))))
         | Some (Archive inp lab) \<Rightarrow>
             (if isl inp \<or> isl lab
              then validate_loop fs dest spf (Suc j) (take j valid_files @ drop (Suc j) valid_files)
              else validate_loop fs dest spf (Suc j)
                     (valid_files @ [test_file_of dest spf (valid_files ! j)])))
      else Some (Inr valid_files))"

definition resume_preprocessing ::
  "filesystem \<Rightarrow> string \<Rightarrow> int \<Rightarrow> (error + string list) option" where
  "resume_preprocessing w dest spf =
     (case os_listdir w dest of
        Inl e \<Rightarrow> Some (Inl e)
      | Inr names \<Rightarrow> validate_loop (stored w) dest spf 0 (count_complete spf names))"

section \<open>\<^verbatim>\<open>test_integrity\<close>\<close>

text \<open>
  The function is the same text in both scripts. The first component of the result is what
  was printed, line by line; the second is the exception that left the function, if any.
  \<^verbatim>\<open>os.path.exists\<close> is false exactly for a path that is not stored. \<^verbatim>\<open>np.load\<close> stands
  before the \<^verbatim>\<open>try\<close>; the two subscripts stand inside it, \<^verbatim>\<open>input\<close> first.
\<close>

text \<open>The body of the \<^verbatim>\<open>try\<close>, on the two arrays of an opened archive.\<close>

fun deserialize :: "string + tensor \<Rightarrow> string + tensor \<Rightarrow> string + (tensor \<times> tensor)" where
  "deserialize (Inl msg) lab = Inl msg"
| "deserialize (Inr img) (Inl msg) = Inl msg"
| "deserialize (Inr img) (Inr lab) = Inr (img, lab)"

fun test_integrity_loop ::
  "(string \<times> disk_file) list \<Rightarrow> string \<Rightarrow> string list \<Rightarrow> string list \<times> error option" where
  "test_integrity_loop fs dir_path [] = ([], None)"
| "test_integrity_loop fs dir_path (filename # rest) =
     (case map_of fs (path_join dir_path filename) of
        None \<Rightarrow>
          ([], Some (FileNotFoundError (''File '' @ [CHR 0x27] @ filename @ [CHR 0x27]
                                          @ '' does not exist in directory.'')))
      | Some Garbage \<Rightarrow> ([], Some (LoadError (path_join dir_path filename)))
      | Some (Archive inp lab) \<Rightarrow>
          (case deserialize inp lab of
             Inl e \<Rightarrow>
               ((''Error occurred: '' @ e) # filename # fst (test_integrity_loop fs dir_path rest),
                snd (test_integrity_loop fs dir_path rest))
           | Inr data \<Rightarrow> test_integrity_loop fs dir_path rest))"

text \<open>The lines the scan prints for one file that \<^verbatim>\<open>np.load\<close> opens.\<close>

definition report_lines :: "(string \<times> disk_file) list \<Rightarrow> string \<Rightarrow> string \<Rightarrow> string list" where
  "report_lines fs dir_path filename =
     (case map_of fs (path_join dir_path filename) of
        None \<Rightarrow> []
      | Some Garbage \<Rightarrow> []
      | Some (Archive inp lab) \<Rightarrow>
          (case deserialize inp lab of
             Inl e \<Rightarrow> [''Error occurred: '' @ e, filename]
           | Inr data \<Rightarrow> []))"

text \<open>Whether \<^verbatim>\<open>np.load\<close> opens the file of that name.\<close>

definition opens :: "(string \<times> disk_file) list \<Rightarrow> string \<Rightarrow> string \<Rightarrow> bool" where
  "opens fs dir_path filename =
     (case map_of fs (path_join dir_path filename) of
        Some (Archive inp lab) \<Rightarrow> True
      | Some Garbage \<Rightarrow> False
      | None \<Rightarrow> False)"

definition test_integrity :: "filesystem \<Rightarrow> string \<Rightarrow> string list \<times> error option" where
  "test_integrity w dir_path =
     (case os_listdir w dir_path of
        Inl e \<Rightarrow> ([], Some e)
      | Inr names \<Rightarrow> test_integrity_loop (stored w) dir_path names)"

section \<open>\<^verbatim>\<open>ResampleDataset\<close>, plain variant\<close>

text \<open>
  One entry of \<^verbatim>\<open>self.files\<close>: the dictionary that \<^verbatim>\<open>get_file_dict_nn\<close> builds for a case.
  The scripts read its key \<^verbatim>\<open>label\<close> only.
\<close>

record file_dict =
  image_paths :: "string list"
  label :: string

text \<open>
  The transform pipeline is a parameter. It draws from a random state \<open>'r\<close>, which it
  returns updated, so that two calls on the same case give independent samples.
\<close>

type_synonym 'r transform_fn = "'r \<Rightarrow> file_dict \<Rightarrow> (tensor \<times> tensor) \<times> 'r"

record 'r dataset =
  files :: "file_dict list"
  transform :: "'r transform_fn"
  destination :: string
  root :: string
  samples_per_file :: int

text \<open>
  What a run does to the outside, in order. \<open>LockAcquire\<close> and \<open>LockRelease\<close> are entry to
  and exit from \<^verbatim>\<open>with self.lock:\<close>.
\<close>

datatype event =
    TransformCall file_dict
  | OutlierCall tensor
  | Makedirs string
  | LockAcquire
  | Savez string tensor tensor
  | LockRelease

text \<open>
  \<^verbatim>\<open>os.makedirs\<close> and \<^verbatim>\<open>np.savez_compressed\<close> can raise (an empty directory name, a
  full disk); which paths do is a parameter of the run.
\<close>

record os_env =
  makedirs_error :: "string \<Rightarrow> error option"
  savez_error :: "string \<Rightarrow> error option"

text \<open>Lines 66 to 68 of the plain variant.\<close>

definition label_base :: "file_dict \<Rightarrow> string" where
  "label_base file_path =
     (let label_name = last (split_on CHR ''/'' (str_replace ''.nii.gz'' [] (label file_path)))
      in basename label_name)"

definition output_path :: "string \<Rightarrow> file_dict \<Rightarrow> nat \<Rightarrow> string" where
  "output_path dest file_path i =
     path_join dest (label_base file_path @ ''_'' @ fmt_03d (int i) @ ''.npz'')"

text \<open>
  \<^verbatim>\<open>os.makedirs(os.path.dirname(output_path), exist_ok=True)\<close> followed by
  \<^verbatim>\<open>with self.lock: np.savez_compressed(output_path, ...)\<close>, the same text in both variants.
  The lock is released also when the write raises.
\<close>

definition persist :: "os_env \<Rightarrow> string \<Rightarrow> tensor \<times> tensor \<Rightarrow> event list \<times> error option" where
  "persist env p sample =
     (case makedirs_error env (dirname p) of
        Some e \<Rightarrow> ([], Some e)
      | None \<Rightarrow>
          (case savez_error env p of
             Some e \<Rightarrow> ([Makedirs (dirname p), LockAcquire, LockRelease], Some e)
           | None \<Rightarrow>
               ([Makedirs (dirname p), LockAcquire, Savez p (fst sample) (snd sample), LockRelease],
                None)))"

text \<open>
  The body of \<^verbatim>\<open>for i in range(self.samples_per_file)\<close>, over the indices still to come.
  The result is the trace of events, the random state, the last \<^verbatim>\<open>(image, label)\<close> bound
  and the exception that ended the loop, if any.
\<close>

fun sample_loop ::
  "os_env \<Rightarrow> 'r dataset \<Rightarrow> file_dict \<Rightarrow> nat list \<Rightarrow> 'r \<Rightarrow> (tensor \<times> tensor) option
   \<Rightarrow> event list \<times> 'r \<times> (tensor \<times> tensor) option \<times> error option" where
  "sample_loop env ds file_path [] r bound = ([], r, bound, None)"
| "sample_loop env ds file_path (i # rest) r bound =
     (let drawn = transform ds r file_path;
          written = persist env (output_path (destination ds) file_path i) (fst drawn)
      in case snd written of
           Some e \<Rightarrow> (TransformCall file_path # fst written, snd drawn, Some (fst drawn), Some e)
         | None \<Rightarrow>
             (let later = sample_loop env ds file_path rest (snd drawn) (Some (fst drawn))
              in (TransformCall file_path # fst written @ fst later, snd later)))"

text \<open>
  \<^verbatim>\<open>__getitem__\<close>. The index is the one a \<^verbatim>\<open>DataLoader\<close> passes, a natural number;
  \<^verbatim>\<open>return image, label\<close> raises when the loop body never ran.
\<close>

definition getitem ::
  "os_env \<Rightarrow> 'r dataset \<Rightarrow> nat \<Rightarrow> 'r \<Rightarrow> event list \<times> 'r \<times> (error + tensor \<times> tensor)" where
  "getitem env ds idx r =
     (if idx < length (files ds) then
        (case sample_loop env ds (files ds ! idx) [0..<nat (samples_per_file ds)] r None of
           (evs, r', bound, Some e) \<Rightarrow> (evs, r', Inl e)
         | (evs, r', None, None) \<Rightarrow> (evs, r', Inl UnboundLocalError)
         | (evs, r', Some sample, None) \<Rightarrow> (evs, r', Inr sample))
      else ([], r, Inl IndexError))"

text \<open>
  \<^verbatim>\<open>__init__\<close>. \<^verbatim>\<open>read_split\<close> and \<^verbatim>\<open>get_file_dict_nn\<close> belong to the package
  \<^verbatim>\<open>autopet3\<close>: the split's two lists and the resolver are parameters. The order of
  \<^verbatim>\<open>list(set(a) - set(b))\<close> is not fixed by Python; only its elements matter here. The two
  seeding calls set the global random state, which is the \<open>'r\<close> that \<^verbatim>\<open>__getitem__\<close> is
  given.
\<close>

definition init ::
  "filesystem \<Rightarrow> (string \<Rightarrow> string list \<Rightarrow> file_dict list) \<Rightarrow> string list \<Rightarrow> string list
   \<Rightarrow> string \<Rightarrow> string \<Rightarrow> 'r transform_fn \<Rightarrow> int \<Rightarrow> bool \<Rightarrow> (error + 'r dataset) option" where
  "init w get_file_dict_nn train val data_dir save_path tf spf resume =
     (if resume then
        (case resume_preprocessing w save_path spf of
           None \<Rightarrow> None
         | Some (Inl e) \<Rightarrow> Some (Inl e)
         | Some (Inr valid_files) \<Rightarrow>
             Some (Inr \<lparr> files = get_file_dict_nn data_dir
                                   (remdups (filter (\<lambda>c. c \<notin> set valid_files) (train @ val))),
                         transform = tf, destination = save_path, root = data_dir,
                         samples_per_file = spf \<rparr>))
      else Some (Inr \<lparr> files = get_file_dict_nn data_dir (train @ val),
                       transform = tf, destination = save_path, root = data_dir,
                       samples_per_file = spf \<rparr>))"

section \<open>\<^verbatim>\<open>ResampleDataset\<close>, outlier variant\<close>

text \<open>
  The instance of the outlier variant. \<^verbatim>\<open>__getitem__\<close> reads the attribute
  \<^verbatim>\<open>self.outlier_detection_fn\<close>: \<open>None\<close> is an instance without that attribute, \<open>Some None\<close>
  one where it is Python's \<^verbatim>\<open>None\<close>, \<open>Some (Some f)\<close> one where it is the predicate \<open>f\<close>.
\<close>

record 'r dataset_o = "'r dataset" +
  outlier_detection_fn :: "(tensor \<Rightarrow> bool) option option"

text \<open>Lines 70 and 71 of the outlier variant.\<close>

definition label_name_o :: "file_dict \<Rightarrow> string" where
  "label_name_o file_path =
     last (split_on CHR ''/'' (str_replace ''.nii.gz'' [] (label file_path)))"

definition output_path_o :: "string \<Rightarrow> file_dict \<Rightarrow> nat \<Rightarrow> string" where
  "output_path_o dest file_path i =
     path_join dest (label_name_o file_path @ ''_'' @ fmt_03d (int i) @ ''.npz'')"

text \<open>
  The filter's verdict on a drawn image: reading a missing attribute raises
  \<^verbatim>\<open>AttributeError\<close>; \<^verbatim>\<open>None\<close> keeps every draw; a predicate is called once.
\<close>

definition outlier_check ::
  "'r dataset_o \<Rightarrow> tensor \<Rightarrow> event list \<times> (error + bool)" where
  "outlier_check ds img =
     (case outlier_detection_fn ds of
        None \<Rightarrow> ([], Inl (AttributeError ''outlier_detection_fn''))
      | Some None \<Rightarrow> ([], Inr False)
      | Some (Some f) \<Rightarrow> ([OutlierCall img], Inr (f img)))"

fun sample_loop_o ::
  "os_env \<Rightarrow> 'r dataset_o \<Rightarrow> file_dict \<Rightarrow> nat list \<Rightarrow> 'r \<Rightarrow> (tensor \<times> tensor) option
   \<Rightarrow> event list \<times> 'r \<times> (tensor \<times> tensor) option \<times> error option" where
  "sample_loop_o env ds file_path [] r bound = ([], r, bound, None)"
| "sample_loop_o env ds file_path (i # rest) r bound =
     (let drawn = transform ds r file_path;
          checked = outlier_check ds (fst (fst drawn))
      in case snd checked of
           Inl e \<Rightarrow> (TransformCall file_path # fst checked, snd drawn, Some (fst drawn), Some e)
         | Inr True \<Rightarrow>
             (let later = sample_loop_o env ds file_path rest (snd drawn) (Some (fst drawn))
              in (TransformCall file_path # fst checked @ fst later, snd later))
         | Inr False \<Rightarrow>
             (let written = persist env (output_path_o (destination ds) file_path i) (fst drawn)
              in case snd written of
                   Some e \<Rightarrow>
                     (TransformCall file_path # fst checked @ fst written,
                      snd drawn, Some (fst drawn), Some e)
                 | None \<Rightarrow>
                     (let later = sample_loop_o env ds file_path rest (snd drawn) (Some (fst drawn))
                      in (TransformCall file_path # fst checked @ fst written @ fst later,
                          snd later))))"

definition getitem_o ::
  "os_env \<Rightarrow> 'r dataset_o \<Rightarrow> nat \<Rightarrow> 'r \<Rightarrow> event list \<times> 'r \<times> (error + tensor \<times> tensor)" where
  "getitem_o env ds idx r =
     (if idx < length (files ds) then
        (case sample_loop_o env ds (files ds ! idx) [0..<nat (samples_per_file ds)] r None of
           (evs, r', bound, Some e) \<Rightarrow> (evs, r', Inl e)
         | (evs, r', None, None) \<Rightarrow> (evs, r', Inl UnboundLocalError)
         | (evs, r', Some sample, None) \<Rightarrow> (evs, r', Inr sample))
      else ([], r, Inl IndexError))"

text \<open>
  \<^verbatim>\<open>__init__\<close> of the outlier variant takes \<^verbatim>\<open>outlier_detection_fn\<close> and assigns
  \<^verbatim>\<open>self.files\<close>, \<^verbatim>\<open>self.transform\<close>, \<^verbatim>\<open>self.destination\<close>, \<^verbatim>\<open>self.root\<close>,
  \<^verbatim>\<open>self.samples_per_file\<close> and \<^verbatim>\<open>self.lock\<close>. No statement assigns
  \<^verbatim>\<open>self.outlier_detection_fn\<close>, so the instance is left without that attribute whatever
  the argument was.
\<close>

definition init_o ::
  "filesystem \<Rightarrow> (string \<Rightarrow> string list \<Rightarrow> file_dict list) \<Rightarrow> string list \<Rightarrow> string list
   \<Rightarrow> string \<Rightarrow> string \<Rightarrow> 'r transform_fn \<Rightarrow> int \<Rightarrow> bool \<Rightarrow> (tensor \<Rightarrow> bool) option
   \<Rightarrow> (error + 'r dataset_o) option" where
  "init_o w get_file_dict_nn train val data_dir save_path tf spf resume outlier_fn =
     (if resume then
        (case resume_preprocessing w save_path spf of
           None \<Rightarrow> None
         | Some (Inl e) \<Rightarrow> Some (Inl e)
         | Some (Inr valid_files) \<Rightarrow>
             Some (Inr \<lparr> files = get_file_dict_nn data_dir
                                   (remdups (filter (\<lambda>c. c \<notin> set valid_files) (train @ val))),
                         transform = tf, destination = save_path, root = data_dir,
                         samples_per_file = spf, outlier_detection_fn = None \<rparr>))
      else Some (Inr \<lparr> files = get_file_dict_nn data_dir (train @ val),
                       transform = tf, destination = save_path, root = data_dir,
                       samples_per_file = spf, outlier_detection_fn = None \<rparr>))"

section \<open>Reading a trace\<close>

text \<open>The archives a trace writes, in order.\<close>

fun saved_paths :: "event list \<Rightarrow> string list" where
  "saved_paths [] = []"
| "saved_paths (Savez p img lab # evs) = p # saved_paths evs"
| "saved_paths (e # evs) = saved_paths evs"

text \<open>
  Each event of a trace together with whether the lock is held while it happens; the flag
  given is the state of the lock before the first event.
\<close>

fun under_lock :: "bool \<Rightarrow> event list \<Rightarrow> (event \<times> bool) list" where
  "under_lock held [] = []"
| "under_lock held (LockAcquire # evs) = (LockAcquire, held) # under_lock True evs"
| "under_lock held (LockRelease # evs) = (LockRelease, held) # under_lock False evs"
| "under_lock held (e # evs) = (e, held) # under_lock held evs"



section \<open>The archive name as the specification words it\<close>


section \<open>Measures for the validation loop\<close>

definition max_path_len :: "(string \<times> disk_file) list \<Rightarrow> nat" where
  "max_path_len fs = foldr (\<lambda>pf m. max (length (fst pf)) m) fs 0"

definition slack :: "(string \<times> disk_file) list \<Rightarrow> string \<Rightarrow> nat" where
  "slack fs e = Suc (max_path_len fs - length e)"

definition pending :: "(string \<times> disk_file) list \<Rightarrow> nat \<Rightarrow> string list \<Rightarrow> nat" where
  "pending fs j vs = sum_list (map (slack fs) (drop j vs))"

text \<open>A run in which no directory creation and no archive write raises.\<close>

definition fault_free :: "os_env \<Rightarrow> bool" where
  "fault_free env = ((\<forall>p. makedirs_error env p = None) \<and> (\<forall>p. savez_error env p = None))"

section \<open>Reading a decimal back\<close>

definition undec :: "string \<Rightarrow> nat" where
  "undec s = foldl (\<lambda>a c. 10 * a + (of_char c - 48)) 0 s"

section \<open>The archive path on either flavour of \<^verbatim>\<open>os.path\<close>\<close>








section \<open>Failures during resume, by kind\<close>



section \<open>Evaluation rules\<close>

lemmas resume_eval =
  resume_preprocessing_def os_listdir_def count_complete_def np_unique_counts_def archive_prefix_def
  validate_loop.simps test_file_of_def path_join_def fmt_03d_def dec_nat.simps digit_char_def
  numeral_2_eq_2 numeral_3_eq_3

section \<open>The validation loop ends\<close>

lemma map_of_length_le: "map_of fs p = Some x \<Longrightarrow> length p \<le> max_path_len fs"
  unfolding max_path_len_def by (induction fs) (auto split: if_splits)

lemma path_join_length: "length b \<le> length (path_join a b)"
  by (simp add: path_join_def)

lemma test_file_of_longer: "length i < length (test_file_of dest spf i)"
proof -
  have "length (i @ ''_'' @ fmt_03d (spf - 1) @ ''.npz'') \<le> length (test_file_of dest spf i)"
    unfolding test_file_of_def by (rule path_join_length)
  then show ?thesis by simp
qed

lemma pending_unfold:
  "j < length vs \<Longrightarrow> pending fs j vs = slack fs (vs ! j) + pending fs (Suc j) vs"
  by (simp add: pending_def flip: Cons_nth_drop_Suc)

lemma pending_append:
  "j < length vs \<Longrightarrow> pending fs (Suc j) (vs @ [t]) = pending fs (Suc j) vs + slack fs t"
  by (simp add: pending_def)

lemma sum_list_drop_le: "sum_list (map f (drop k xs)) \<le> sum_list (map (f :: 'a \<Rightarrow> nat) xs)"
proof -
  have "sum_list (map f xs) = sum_list (map f (take k xs)) + sum_list (map f (drop k xs))"
    by (metis append_take_drop_id map_append sum_list.append)
  then show ?thesis by simp
qed

lemma pending_pop:
  assumes j: "j < length vs"
  shows "pending fs (Suc j) (take j vs @ drop (Suc j) vs) \<le> pending fs (Suc j) vs"
proof -
  from j have "drop (Suc j) (take j vs @ drop (Suc j) vs) = drop 1 (drop (Suc j) vs)"
    by simp
  then show ?thesis
    unfolding pending_def using sum_list_drop_le [of "slack fs" 1 "drop (Suc j) vs"] by simp
qed

lemma slack_decreases:
  "map_of fs (test_file_of dest spf e) = Some x \<Longrightarrow>
   slack fs (test_file_of dest spf e) < slack fs e"
  using map_of_length_le [of fs "test_file_of dest spf e" x] test_file_of_longer [of e dest spf]
  by (simp add: slack_def)

text \<open>
  An appended entry is the path of a stored file and is longer than the entry it came from,
  so every entry still to be visited can be followed by only as many appended ones as the
  longest stored path allows: \<open>pending\<close> falls with every iteration.
\<close>

lemma validate_loop_returns: "\<exists>r. validate_loop fs dest spf j vs = Some r"
proof (induction "pending fs j vs" arbitrary: j vs rule: less_induct)
  case less
  show ?case
  proof (cases "j < length vs")
    case False
    then show ?thesis by (subst validate_loop.simps) simp
  next
    case True
    let ?t = "test_file_of dest spf (vs ! j)"
    show ?thesis
    proof (cases "map_of fs ?t")
      case None
      with True show ?thesis by (subst validate_loop.simps) simp
    next
      case (Some f)
      show ?thesis
      proof (cases f)
        case Garbage
        with Some True show ?thesis by (subst validate_loop.simps) simp
      next
        case (Archive inp lab)
        show ?thesis
        proof (cases "isl inp \<or> isl lab")
          case bad: True
          have "pending fs (Suc j) (take j vs @ drop (Suc j) vs) < pending fs j vs"
            using pending_pop [OF True, of fs] pending_unfold [OF True, of fs]
            by (simp add: slack_def)
          from less [OF this] obtain r where
            "validate_loop fs dest spf (Suc j) (take j vs @ drop (Suc j) vs) = Some r" ..
          with Some Archive True bad show ?thesis
            by (subst validate_loop.simps) simp
        next
          case good: False
          have "pending fs (Suc j) (vs @ [?t]) < pending fs j vs"
            using pending_append [OF True, of fs ?t] pending_unfold [OF True, of fs]
              slack_decreases [OF Some]
            by simp
          from less [OF this] obtain r where
            "validate_loop fs dest spf (Suc j) (vs @ [?t]) = Some r" ..
          with Some Archive True good show ?thesis
            by (subst validate_loop.simps) simp
        qed
      qed
    qed
  qed
qed

text \<open>
  Claim C10. For every destination directory and every \<^verbatim>\<open>samples_per_file\<close>, the
  validation loop of \<^verbatim>\<open>resume_preprocessing\<close> ends, although it appends to the list it
  iterates over: from every position of every list the loop gives a result (a returned
  list or a raised exception), and so does \<^verbatim>\<open>resume_preprocessing\<close> as a whole. This
  covers the directories in which every count-complete prefix has a final archive that
  deserializes.
\<close>

theorem resume_validation_terminates:
  "(\<exists>r. validate_loop fs dest spf j vs = Some r) \<and>
   (\<exists>r. resume_preprocessing w dest spf = Some r)"
proof
  show "\<exists>r. validate_loop fs dest spf j vs = Some r"
    by (rule validate_loop_returns)
  show "\<exists>r. resume_preprocessing w dest spf = Some r"
    unfolding resume_preprocessing_def
    using validate_loop_returns by (cases "os_listdir w dest") auto
qed

section \<open>What resume returns\<close>

text \<open>
  Claim C1. Resume is to return exactly the verified-complete prefixes and no file paths,
  and a dataset built with \<^verbatim>\<open>resume=True\<close> is to hold the case list minus those cases.
  The code appends the path of each archive that deserializes to the list it iterates over.
  With one complete case \<^verbatim>\<open>a\<close> (\<^verbatim>\<open>samples_per_file = 1\<close>) whose archive is sound, the loop
  reaches the appended path \<^verbatim>\<open>d/a_000.npz\<close>, asks \<^verbatim>\<open>np.load\<close> for
  \<^verbatim>\<open>d/d/a_000.npz_000.npz\<close> and raises, and so does the constructor. With a second complete
  case \<^verbatim>\<open>b\<close> whose archive does not deserialize, resume returns the prefix \<^verbatim>\<open>a\<close> together
  with the file path \<^verbatim>\<open>d/a_000.npz\<close>.
\<close>

theorem resume_appends_archive_paths:
  "resume_preprocessing
     \<lparr> listing = [(''d'', [''a_000.npz''])],
       stored = [(''d/a_000.npz'', Archive (Inr [1]) (Inr [0]))] \<rparr> ''d'' 1
     = Some (Inl (FileNotFoundError ''d/d/a_000.npz_000.npz''))
   \<and> init
       \<lparr> listing = [(''d'', [''a_000.npz''])],
         stored = [(''d/a_000.npz'', Archive (Inr [1]) (Inr [0]))] \<rparr>
       resolver [''a''] [''c''] ''src'' ''d'' (tf :: unit transform_fn) 1 True
     = Some (Inl (FileNotFoundError ''d/d/a_000.npz_000.npz''))
   \<and> resume_preprocessing
       \<lparr> listing = [(''d'', [''b_000.npz'', ''a_000.npz''])],
         stored = [(''d/a_000.npz'', Archive (Inr [1]) (Inr [0])),
                   (''d/b_000.npz'', Archive (Inl ''KeyError'') (Inr [0]))] \<rparr> ''d'' 1
     = Some (Inr [''a'', ''d/a_000.npz''])"
  by (simp add: init_def resume_eval)

text \<open>
  Claim C2. Every count-complete prefix is to have its final archive opened and both
  arrays deserialized, a failure removing that prefix. The count test is exact, but
  \<^verbatim>\<open>valid_files.pop(j)\<close> inside the loop over \<^verbatim>\<open>valid_files\<close> moves the next prefix to
  position \<open>j\<close>, which the iterator has passed. With the complete cases \<^verbatim>\<open>a\<close> and \<^verbatim>\<open>b\<close>
  (\<^verbatim>\<open>samples_per_file = 1\<close>), \<^verbatim>\<open>a\<close> failing to deserialize and the archive of \<^verbatim>\<open>b\<close> a file
  that \<^verbatim>\<open>np.load\<close> cannot even open, \<^verbatim>\<open>b\<close> is never opened and is returned as valid.
\<close>

theorem resume_skips_prefix_after_failure:
  "count_complete 1 [''b_000.npz'', ''a_000.npz''] = [''a'', ''b'']
   \<and> resume_preprocessing
       \<lparr> listing = [(''d'', [''b_000.npz'', ''a_000.npz''])],
         stored = [(''d/a_000.npz'', Archive (Inr [1]) (Inl ''BadZipFile'')),
                   (''d/b_000.npz'', Garbage)] \<rparr> ''d'' 1
     = Some (Inr [''b''])"
  by (simp add: resume_eval)

section \<open>Splitting, base names and replacement\<close>

lemma split_on_nonempty: "split_on c s \<noteq> []"
  by (induction s) simp_all

lemma split_on_single: "(tl (split_on c s) = []) = (c \<notin> set s)"
  by (induction s) (auto simp: split_on_nonempty)

lemma split_on_no_sep: "c \<notin> set s \<Longrightarrow> split_on c s = [s]"
proof (induction s)
  case Nil
  show ?case by simp
next
  case (Cons x s)
  then show ?case by auto
qed

lemma last_split_on_Cons:
  "last (split_on c (x # s)) = (if c \<in> set s \<or> x = c then last (split_on c s) else x # s)"
proof (cases "x = c")
  case True
  then show ?thesis by (simp add: split_on_nonempty)
next
  case False
  show ?thesis
  proof (cases "c \<in> set s")
    case True
    then have "tl (split_on c s) \<noteq> []" by (simp add: split_on_single)
    with False True show ?thesis
      by (simp add: last_tl split_on_nonempty)
  next
    case notin: False
    with False show ?thesis by (simp add: split_on_no_sep)
  qed
qed

lemma basename_append_slash:
  "CHR ''/'' \<notin> set f \<Longrightarrow> basename (d @ CHR ''/'' # f) = f"
proof -
  assume "CHR ''/'' \<notin> set f"
  then have "takeWhile (\<lambda>c. c \<noteq> CHR ''/'') (rev f @ CHR ''/'' # rev d) = rev f"
    by (subst takeWhile_append2) auto
  then show ?thesis by (simp add: basename_def)
qed

lemma basename_no_slash_id: "CHR ''/'' \<notin> set f \<Longrightarrow> basename f = f"
proof -
  assume "CHR ''/'' \<notin> set f"
  then have "takeWhile (\<lambda>c. c \<noteq> CHR ''/'') (rev f) = rev f"
    by (auto simp: takeWhile_eq_all_conv)
  then show ?thesis unfolding basename_def by (simp only: rev_rev_ident)
qed

lemma basename_no_slash: "CHR ''/'' \<notin> set (basename p)"
  by (auto simp: basename_def dest: set_takeWhileD)

lemma basename_Cons:
  "basename (x # s) = (if CHR ''/'' \<in> set s \<or> x = CHR ''/'' then basename s else x # s)"
proof (cases "CHR ''/'' \<in> set s")
  case True
  then have "takeWhile (\<lambda>c. c \<noteq> CHR ''/'') (rev s @ [x]) = takeWhile (\<lambda>c. c \<noteq> CHR ''/'') (rev s)"
    by (intro takeWhile_append1 [where x = "CHR ''/''"]) auto
  with True show ?thesis by (simp add: basename_def)
next
  case False
  show ?thesis
  proof (cases "x = CHR ''/''")
    case True
    with False show ?thesis
      using basename_append_slash [of s "[]"] basename_no_slash_id [of s] by simp
  next
    case nx: False
    with False show ?thesis
      using basename_no_slash_id [of "x # s"] by simp
  qed
qed

lemma last_split_on_basename: "last (split_on CHR ''/'' s) = basename s"
proof (induction s)
  case Nil
  show ?case by (simp add: basename_def)
next
  case (Cons x s)
  then show ?case by (simp only: last_split_on_Cons basename_Cons)
qed














section \<open>Archive names are distinct\<close>

lemma digit_char_val: "d < 10 \<Longrightarrow> of_char (digit_char d) = (48 + d :: nat)"
proof -
  assume "d < 10"
  then have "d = 0 \<or> d = 1 \<or> d = 2 \<or> d = 3 \<or> d = 4 \<or> d = 5 \<or> d = 6 \<or> d = 7 \<or> d = 8 \<or> d = 9"
    by arith
  then show ?thesis
    by (auto simp: digit_char_def)
qed

lemma undec_snoc: "undec (s @ [c]) = 10 * undec s + (of_char c - 48)"
  by (simp add: undec_def)

lemma undec_dec_nat: "undec (dec_nat n) = n"
proof (induction n rule: dec_nat.induct)
  case (1 n)
  show ?case
  proof (cases "n < 10")
    case True
    then show ?thesis
      by (subst dec_nat.simps) (simp add: undec_def digit_char_val)
  next
    case False
    with 1 have "undec (dec_nat (n div 10)) = n div 10" by simp
    with False show ?thesis
      by (subst dec_nat.simps) (simp add: undec_snoc digit_char_val)
  qed
qed

lemma undec_zeros: "undec (replicate k CHR ''0'' @ s) = undec s"
proof -
  have "foldl (\<lambda>a c. 10 * a + (of_char c - 48)) (0::nat) (replicate k CHR ''0'') = 0"
    by (induction k) simp_all
  then show ?thesis by (simp add: undec_def)
qed

lemma undec_fmt_03d: "undec (fmt_03d (int i)) = i"
  by (simp add: fmt_03d_def undec_zeros undec_dec_nat)

lemma fmt_03d_inj: "fmt_03d (int i) = fmt_03d (int j) \<Longrightarrow> i = j"
  by (metis undec_fmt_03d)

lemma label_base_no_slash: "CHR ''/'' \<notin> set (label_base fp)"
  by (simp add: label_base_def basename_no_slash)

lemma path_join_plain:
  "b \<noteq> [] \<Longrightarrow> hd b \<noteq> CHR ''/'' \<Longrightarrow>
   path_join a b = (if a = [] \<or> last a = CHR ''/'' then a else a @ ''/'') @ b"
  by (simp add: path_join_def)

lemma archive_name_hd:
  "CHR ''/'' \<notin> set base \<Longrightarrow> hd (base @ ''_'' @ rest) \<noteq> CHR ''/''"
  by (cases base) auto

lemma output_path_inj: "output_path dest fp i = output_path dest fp j \<Longrightarrow> i = j"
proof -
  assume eq: "output_path dest fp i = output_path dest fp j"
  let ?n = "\<lambda>k. label_base fp @ ''_'' @ fmt_03d (int k) @ ''.npz''"
  have "path_join dest (?n i) = path_join dest (?n j)"
    using eq by (simp add: output_path_def)
  then have "?n i = ?n j"
    using archive_name_hd [OF label_base_no_slash, of fp]
    by (simp add: path_join_plain)
  then show "i = j" by (simp add: fmt_03d_inj)
qed

lemma distinct_output_paths: "distinct (map (output_path dest fp) [0..<n])"
  by (auto simp: distinct_map inj_on_def dest: output_path_inj)

section \<open>The generation loop\<close>

lemma saved_paths_append: "saved_paths (xs @ ys) = saved_paths xs @ saved_paths ys"
  by (induction xs rule: saved_paths.induct) simp_all

lemma persist_ok:
  "makedirs_error env (dirname p) = None \<Longrightarrow> savez_error env p = None \<Longrightarrow>
   persist env p sample =
     ([Makedirs (dirname p), LockAcquire, Savez p (fst sample) (snd sample), LockRelease], None)"
  by (simp add: persist_def)

lemma sample_loop_saved:
  assumes "\<forall>p. makedirs_error env p = None" and "\<forall>p. savez_error env p = None"
  shows "saved_paths (fst (sample_loop env ds fp js r b)) = map (output_path (destination ds) fp) js
     \<and> snd (snd (snd (sample_loop env ds fp js r b))) = None
     \<and> (js \<noteq> [] \<longrightarrow> fst (snd (snd (sample_loop env ds fp js r b))) \<noteq> None)
     \<and> (js = [] \<longrightarrow> fst (snd (snd (sample_loop env ds fp js r b))) = b)"
proof (induction js arbitrary: r b)
  case Nil
  show ?case by simp
next
  case (Cons i js)
  show ?case
    using Cons [of "snd (transform ds r fp)" "Some (fst (transform ds r fp))"] assms
    by (cases js) (simp_all add: persist_ok Let_def saved_paths_append)
qed

lemma under_lock_block:
  "under_lock False (TransformCall fp # [Makedirs d, LockAcquire, Savez p a b, LockRelease] @ rest) =
   [(TransformCall fp, False), (Makedirs d, False), (LockAcquire, False), (Savez p a b, True),
    (LockRelease, True)] @ under_lock False rest"
  by simp


section \<open>The integrity scan\<close>

lemma test_integrity_loop_append:
  "list_all (opens fs d) pre \<Longrightarrow>
   test_integrity_loop fs d (pre @ rest) =
     (concat (map (report_lines fs d) pre) @ fst (test_integrity_loop fs d rest),
      snd (test_integrity_loop fs d rest))"
proof (induction pre)
  case Nil
  show ?case by simp
next
  case (Cons f pre)
  from Cons.prems obtain inp lab where
    f: "map_of fs (path_join d f) = Some (Archive inp lab)"
    by (auto simp: opens_def split: option.splits disk_file.splits)
  from Cons have IH: "test_integrity_loop fs d (pre @ rest) =
     (concat (map (report_lines fs d) pre) @ fst (test_integrity_loop fs d rest),
      snd (test_integrity_loop fs d rest))" by simp
  have r: "report_lines fs d f =
     (case deserialize inp lab of
        Inl e \<Rightarrow> [''Error occurred: '' @ e, f] | Inr data \<Rightarrow> [])"
    by (simp add: report_lines_def f)
  show ?case
    by (cases "deserialize inp lab") (simp_all add: f IH r)
qed

text \<open>
  Over a directory whose listed files all exist and are opened by \<^verbatim>\<open>np.load\<close>, the scan
  prints, in listing order, the two lines of every file whose arrays fail and ends without
  an exception.
\<close>

lemma test_integrity_opened_files:
  assumes "map_of (listing w) d = Some names" and "list_all (opens (stored w) d) names"
  shows "test_integrity w d = (concat (map (report_lines (stored w) d) names), None)"
  using test_integrity_loop_append [OF assms(2), of "[]"] assms(1)
  by (simp add: test_integrity_def os_listdir_def)

text \<open>
  Claim C6. A file whose arrays cannot be deserialized is to be reported, with the scan going
  on and no exception reaching the caller. The \<^verbatim>\<open>try\<close> of \<^verbatim>\<open>test_integrity\<close> covers the two
  subscripts only; \<^verbatim>\<open>np.load\<close> stands before it. With \<^verbatim>\<open>a_000.npz\<close> a file whose bytes
  \<^verbatim>\<open>np.load\<close> cannot read and \<^verbatim>\<open>b_000.npz\<close> an archive whose \<^verbatim>\<open>label\<close> array fails, the
  exception of \<^verbatim>\<open>np.load\<close> leaves the function at the first file: nothing is printed and
  the second file is never examined. With the two files in the other order, the second is
  reported and the scan then ends with the same exception.
\<close>

theorem test_integrity_unreadable_file_propagates:
  "test_integrity
     \<lparr> listing = [(''d'', [''a_000.npz'', ''b_000.npz''])],
       stored = [(''d/a_000.npz'', Garbage),
                 (''d/b_000.npz'', Archive (Inr [1]) (Inl ''BadZipFile''))] \<rparr> ''d''
   = ([], Some (LoadError ''d/a_000.npz''))
   \<and> test_integrity
     \<lparr> listing = [(''d'', [''b_000.npz'', ''a_000.npz''])],
       stored = [(''d/a_000.npz'', Garbage),
                 (''d/b_000.npz'', Archive (Inr [1]) (Inl ''BadZipFile''))] \<rparr> ''d''
   = ([''Error occurred: BadZipFile'', ''b_000.npz''], Some (LoadError ''d/a_000.npz''))"
  by (simp add: test_integrity_def os_listdir_def path_join_def)

text \<open>
  Claim C7, as the code has it. A listed file that no longer exists makes the scan raise
  \<^verbatim>\<open>FileNotFoundError\<close> naming that file, which is distinct from the printed report of a
  deserialization error; the exception is not caught, so the scan stops there: the reports
  of the files before it have been printed and the files after it are not examined.
\<close>

theorem test_integrity_missing_file_raises:
  assumes "map_of (listing w) d = Some (pre @ f # post)"
    and "list_all (opens (stored w) d) pre"
    and "map_of (stored w) (path_join d f) = None"
  shows "test_integrity w d =
     (concat (map (report_lines (stored w) d) pre),
      Some (FileNotFoundError
              (''File '' @ [CHR 0x27] @ f @ [CHR 0x27] @ '' does not exist in directory.'')))"
  using test_integrity_loop_append [OF assms(2), of "f # post"] assms(1,3)
  by (simp add: test_integrity_def os_listdir_def)

theorem test_integrity_missing_file_raises_witness:
  "test_integrity
     \<lparr> listing = [(''d'', [''a_000.npz'', ''b_000.npz'', ''c_000.npz''])],
       stored = [(''d/a_000.npz'', Archive (Inl ''KeyError'') (Inr [0])),
                 (''d/c_000.npz'', Archive (Inr [1]) (Inl ''BadZipFile''))] \<rparr> ''d''
   = ([''Error occurred: KeyError'', ''a_000.npz''],
      Some (FileNotFoundError
              (''File '' @ [CHR 0x27] @ ''b_000.npz'' @ [CHR 0x27]
                 @ '' does not exist in directory.'')))"
  using test_integrity_missing_file_raises
    [of "\<lparr> listing = [(''d'', [''a_000.npz'', ''b_000.npz'', ''c_000.npz''])],
           stored = [(''d/a_000.npz'', Archive (Inl ''KeyError'') (Inr [0])),
                     (''d/c_000.npz'', Archive (Inr [1]) (Inl ''BadZipFile''))] \<rparr>"
        "''d''" "[''a_000.npz'']" "''b_000.npz''" "[''c_000.npz'']"]
  by (simp add: opens_def report_lines_def path_join_def)

text \<open>
  Claim C7 as stated fails: with \<^verbatim>\<open>a_000.npz\<close> listed but gone and \<^verbatim>\<open>b_000.npz\<close> an
  archive whose arrays do not deserialize, the scan raises at the first file and never
  reports the second.
\<close>

theorem test_integrity_missing_file_halts_scan:
  "test_integrity
     \<lparr> listing = [(''d'', [''a_000.npz'', ''b_000.npz''])],
       stored = [(''d/b_000.npz'', Archive (Inr [1]) (Inl ''BadZipFile''))] \<rparr> ''d''
   = ([], Some (FileNotFoundError
                  (''File '' @ [CHR 0x27] @ ''a_000.npz'' @ [CHR 0x27]
                     @ '' does not exist in directory.'')))"
  by (simp add: test_integrity_def os_listdir_def path_join_def)

section \<open>The archives of a case\<close>

lemmas name_eval =
  output_path_def output_path_o_def label_base_def label_name_o_def last_split_on_basename
  str_replace_def str_replace_scan.simps basename_def dirname_def path_join_def fmt_03d_def
  dec_nat.simps digit_char_def numeral_2_eq_2 numeral_3_eq_3 Let_def

text \<open>
  Claim C4. In the plain variant, \<^verbatim>\<open>__getitem__\<close> on a case of the work list, in a run
  where no directory creation and no write raises, writes exactly \<^verbatim>\<open>samples_per_file\<close>
  archives: they are the paths \<^verbatim>\<open>{label_base}_{i:03d}.npz\<close> under the destination for
  \<open>i\<close> from \<open>0\<close> to \<^verbatim>\<open>samples_per_file - 1\<close>, in that order, they are pairwise distinct,
  and \<^verbatim>\<open>label_base\<close> holds no path separator.
\<close>

theorem getitem_writes_every_slot:
  assumes "idx < length (files ds)" and "fault_free env"
  shows "saved_paths (fst (getitem env ds idx r)) =
           map (\<lambda>i. path_join (destination ds)
                      (label_base (files ds ! idx) @ ''_'' @ fmt_03d (int i) @ ''.npz''))
               [0..<nat (samples_per_file ds)]
         \<and> length (saved_paths (fst (getitem env ds idx r))) = nat (samples_per_file ds)
         \<and> distinct (saved_paths (fst (getitem env ds idx r)))
         \<and> CHR ''/'' \<notin> set (label_base (files ds ! idx))"
proof -
  let ?fp = "files ds ! idx"
  let ?n = "nat (samples_per_file ds)"
  let ?run = "sample_loop env ds ?fp [0..<?n] r None"
  from assms(2) have ff: "\<forall>p. makedirs_error env p = None" "\<forall>p. savez_error env p = None"
    by (simp_all add: fault_free_def)
  have evs: "fst (getitem env ds idx r) = fst ?run"
    using assms(1) by (simp add: getitem_def split: prod.splits option.splits)
  have sp: "saved_paths (fst ?run) = map (output_path (destination ds) ?fp) [0..<?n]"
    using sample_loop_saved [OF ff, of ds ?fp "[0..<?n]" r None] by (rule conjunct1)
  have paths: "saved_paths (fst (getitem env ds idx r))
      = map (output_path (destination ds) ?fp) [0..<?n]"
    by (simp only: evs sp)
  have expand: "output_path (destination ds) ?fp =
      (\<lambda>i. path_join (destination ds) (label_base ?fp @ ''_'' @ fmt_03d (int i) @ ''.npz''))"
    by (rule ext) (simp only: output_path_def)
  show ?thesis
  proof (intro conjI)
    show "saved_paths (fst (getitem env ds idx r)) =
           map (\<lambda>i. path_join (destination ds)
                      (label_base ?fp @ ''_'' @ fmt_03d (int i) @ ''.npz'')) [0..<?n]"
      by (simp only: paths expand)
    show "length (saved_paths (fst (getitem env ds idx r))) = ?n"
      by (simp only: paths length_map length_upt diff_zero)
    show "distinct (saved_paths (fst (getitem env ds idx r)))"
      by (simp only: paths distinct_output_paths)
    show "CHR ''/'' \<notin> set (label_base ?fp)"
      by (rule label_base_no_slash)
  qed
qed

theorem getitem_writes_every_slot_witness:
  "saved_paths (fst (getitem \<lparr> makedirs_error = (\<lambda>p. None), savez_error = (\<lambda>p. None) \<rparr>
      \<lparr> files = [\<lparr> image_paths = [], label = ''src/labelsTr/x.nii.gz'' \<rparr>],
        transform = (\<lambda>r fp. (([1], [0]), r)), destination = ''d'', root = ''src'',
        samples_per_file = 2 \<rparr> 0 ()))
   = [''d/x_000.npz'', ''d/x_001.npz'']"
  using getitem_writes_every_slot
    [of 0 "\<lparr> files = [\<lparr> image_paths = [], label = ''src/labelsTr/x.nii.gz'' \<rparr>],
             transform = (\<lambda>r fp. (([1], [0]), r)), destination = ''d'', root = ''src'',
             samples_per_file = 2 \<rparr>"
        "\<lparr> makedirs_error = (\<lambda>p. None), savez_error = (\<lambda>p. None) \<rparr>" "()"]
  by (simp del: split_on.simps add: fault_free_def label_base_def last_split_on_basename
      str_replace_def str_replace_scan.simps basename_def
      path_join_def fmt_03d_def dec_nat.simps digit_char_def numeral_2_eq_2 numeral_3_eq_3 upt_rec)

section \<open>The lock\<close>




section \<open>The outlier filter\<close>

text \<open>
  Claim C5. A filter given at construction is to be called once per drawn sample, and with
  no filter every draw is to be persisted. \<^verbatim>\<open>__init__\<close> of the outlier variant never
  assigns \<^verbatim>\<open>self.outlier_detection_fn\<close>: whether a filter (here one that accepts every
  image) or \<^verbatim>\<open>None\<close> is passed, the instance lacks the attribute, and \<^verbatim>\<open>__getitem__\<close>
  raises \<^verbatim>\<open>AttributeError\<close> after the first draw, with no call of the filter and no archive
  written.
\<close>

theorem outlier_filter_never_stored:
  "init_o \<lparr> listing = [], stored = [] \<rparr>
      (\<lambda>data_dir cases.
          map (\<lambda>c. \<lparr> image_paths = [], label = data_dir @ ''/labelsTr/'' @ c @ ''.nii.gz'' \<rparr>) cases)
      [''x''] [] ''src'' ''d'' (\<lambda>r fp. (([1], [0]), r)) 1 False (Some (\<lambda>img. False))
    = Some (Inr \<lparr> files = [\<lparr> image_paths = [], label = ''src/labelsTr/x.nii.gz'' \<rparr>],
                  transform = (\<lambda>r fp. (([1], [0]), r)), destination = ''d'', root = ''src'',
                  samples_per_file = 1, outlier_detection_fn = None \<rparr>)
   \<and> init_o \<lparr> listing = [], stored = [] \<rparr>
      (\<lambda>data_dir cases.
          map (\<lambda>c. \<lparr> image_paths = [], label = data_dir @ ''/labelsTr/'' @ c @ ''.nii.gz'' \<rparr>) cases)
      [''x''] [] ''src'' ''d'' (\<lambda>r fp. (([1], [0]), r)) 1 False None
    = Some (Inr \<lparr> files = [\<lparr> image_paths = [], label = ''src/labelsTr/x.nii.gz'' \<rparr>],
                  transform = (\<lambda>r fp. (([1], [0]), r)), destination = ''d'', root = ''src'',
                  samples_per_file = 1, outlier_detection_fn = None \<rparr>)
   \<and> getitem_o \<lparr> makedirs_error = (\<lambda>p. None), savez_error = (\<lambda>p. None) \<rparr>
        \<lparr> files = [\<lparr> image_paths = [], label = ''src/labelsTr/x.nii.gz'' \<rparr>],
          transform = (\<lambda>r fp. (([1], [0]), r)), destination = ''d'', root = ''src'',
          samples_per_file = 1, outlier_detection_fn = None \<rparr> 0 ()
    = ([TransformCall \<lparr> image_paths = [], label = ''src/labelsTr/x.nii.gz'' \<rparr>], (),
       Inl (AttributeError ''outlier_detection_fn''))"
  by (simp add: init_o_def getitem_o_def outlier_check_def)

section \<open>Failures during resume\<close>









section \<open>The archive name\<close>














text \<open>
  The loop of the outlier variant on an instance that carries a filter (one that
  \<^verbatim>\<open>__init__\<close> never builds): the rejected draw of slot \<open>1\<close> leaves a gap among the paths.
\<close>

lemma outlier_loop_gap:
  "saved_paths (fst (getitem_o \<lparr> makedirs_error = (\<lambda>p. None), savez_error = (\<lambda>p. None) \<rparr>
      \<lparr> files = [\<lparr> image_paths = [], label = ''src/labelsTr/x.nii.gz'' \<rparr>],
        transform = (\<lambda>r fp. (([r], [0]), r + 1)), destination = ''d'', root = ''src'',
        samples_per_file = 3, outlier_detection_fn = Some (Some (\<lambda>img. img = [1])) \<rparr> 0 0))
   = [''d/x_000.npz'', ''d/x_002.npz'']"
  by (simp del: split_on.simps add: getitem_o_def outlier_check_def persist_def name_eval upt_rec)


end
